theory Spec2Isabelle
  imports Complex_Main "HOL-Library.Sublist"
begin

section \<open>Exceptions, warnings and the observable state\<close>

text \<open>
  Python exceptions are values.  Every constructor stands for a subclass of
  \<^verbatim>\<open>Exception\<close> and carries the message; \<open>OtherException cls msg\<close> is any other
  subclass.  The handler \<^verbatim>\<open>except Exception\<close> of the source handles all of them.
  Interpreter signals that are not instances of \<^verbatim>\<open>Exception\<close>
  (KeyboardInterrupt, SystemExit) are outside the model.
\<close>

datatype exn =
    ValueError string
  | RuntimeError string
  | IndexError string
  | TypeError string
  | OtherException string string

text \<open>
  The two calls of \<^verbatim>\<open>warnings.warn\<close> in \<^verbatim>\<open>download_dataset\<close>, kept structured:
  \<open>ItemFailed filename e\<close> is the message
  \<^verbatim>\<open>f"Downloading of image {filename} failed with error {e}"\<close> and
  \<open>UnsuccessfulDownload k\<close> is
  \<^verbatim>\<open>"Warning: Unsuccessful download! Failed at image: {}".format(k)\<close>.
  A warning is appended to a log and does not raise (the default warning filter).
\<close>

datatype warning =
    ItemFailed string exn
  | UnsuccessfulDownload nat

text \<open>
  Every call the client makes to a collaborator (the REST API, urllib, PIL, the
  file system, the thread pool) is recorded in a trace, in the order the calls are made.
\<close>

datatype call =
    GetDatasetById string
  | GetAllTags
  | GetSampleMappings string
  | GetFilenames
  | GetSampleImageReadUrl string string
  | UrlOpen string
  | MakeDirs string
  | ImgSave string
  | ImgClose
  | ThreadPoolExecutor int
  | GetEmbeddings string
  | GetEmbeddingsCsvReadUrl string string
  | HttpGet string
  | WriteFile string

text \<open>
  The world outside the client: the files on disk (path to content) and the
  state of everything else (server, network), which stays abstract.
\<close>

record 'x world =
  files :: "string \<rightharpoonup> string"
  remote :: 'x

text \<open>A collaborator call reads and changes the world and returns or raises.\<close>

type_synonym ('x, 'a) io = "'x world \<Rightarrow> (exn + 'a) \<times> 'x world"

text \<open>
  What a run of the client can be observed to do: the world it leaves, the
  trace of collaborator calls, the warnings emitted, the header lines printed when
  \<^verbatim>\<open>verbose\<close> (number of images, number of workers) and the progress-bar count.
\<close>

record 'x state =
  world :: "'x world"
  calls :: "call list"
  warns :: "warning list"
  printed :: "(nat \<times> int) list"
  pbar :: nat

type_synonym ('x, 'a) prog = "'x state \<Rightarrow> (exn + 'a) \<times> 'x state"

definition and_then :: "('s \<Rightarrow> (exn + 'a) \<times> 's) \<Rightarrow> ('a \<Rightarrow> 's \<Rightarrow> (exn + 'b) \<times> 's) \<Rightarrow> 's \<Rightarrow> (exn + 'b) \<times> 's" where
  "and_then m f st = (case m st of (Inl e, st1) \<Rightarrow> (Inl e, st1) | (Inr a, st1) \<Rightarrow> f a st1)"

definition returns :: "'a \<Rightarrow> 's \<Rightarrow> (exn + 'a) \<times> 's" where
  "returns a st = (Inr a, st)"

definition raises :: "exn \<Rightarrow> 's \<Rightarrow> (exn + 'a) \<times> 's" where
  "raises e st = (Inl e, st)"

definition pure_call :: "exn + 'a \<Rightarrow> 's \<Rightarrow> (exn + 'a) \<times> 's" where
  "pure_call r st = (r, st)"

definition invoke :: "call \<Rightarrow> ('x, 'a) io \<Rightarrow> ('x, 'a) prog" where
  "invoke ev op st =
     (case op (world st) of (r, w1) \<Rightarrow> (r, st\<lparr>world := w1, calls := calls st @ [ev]\<rparr>))"

definition warn :: "warning \<Rightarrow> 'x state \<Rightarrow> 'x state" where
  "warn msg st = st\<lparr>warns := warns st @ [msg]\<rparr>"

section \<open>Data of the REST API\<close>

text \<open>
  Modelled from the spec: the enumeration \<^verbatim>\<open>ImageType\<close> of the generated API client
  is not part of the sources.  It has a variant for downloadable full images; the
  comment in \<^verbatim>\<open>download_dataset\<close> names the others ("only thumbnails or metadata
  available").
\<close>

datatype ImageType = FULL | THUMBNAIL | META

record DatasetData =
  img_type :: ImageType

text \<open>A tag: \<open>name\<close> and \<open>bit_mask_data\<close> as in the source.\<close>

record TagData =
  name :: string
  bit_mask_data :: string

text \<open>
  An embedding descriptor (\<^verbatim>\<open>DatasetEmbeddingData\<close>); \<open>emb_id\<close> and \<open>emb_name\<close> are the
  attributes \<^verbatim>\<open>id\<close> and \<^verbatim>\<open>name\<close>.
\<close>

record DatasetEmbeddingData =
  emb_id :: string
  emb_name :: string
  created_at :: int
  is_processed :: bool
  is2d :: bool

text \<open>
  The client (\<^verbatim>\<open>self\<close>) and its collaborators.  None of the collaborators is
  defined in the sources, so each is a parameter:
  \<^item> \<open>get_sample_mappings d\<close> is
    \<^verbatim>\<open>list(utils.paginate_endpoint(self._mappings_api.get_sample_mappings_by_dataset_id,
    page_size=25000, dataset_id=d, field="_id"))\<close>;
  \<^item> \<open>to_indices h\<close> is \<^verbatim>\<open>BitMask.from_hex(h).to_indices()\<close>, a pure function whose
    result holds no negative number;
  \<^item> \<open>urlopen_read u\<close> is the request, \<^verbatim>\<open>urlopen\<close> and \<^verbatim>\<open>response.read()\<close>;
    \<open>image_open\<close> is \<^verbatim>\<open>Image.open(io.BytesIO(blob))\<close>;
  \<^item> \<open>os_path_join\<close>, \<open>os_path_split\<close>, \<open>os_path_exists\<close>, \<open>os_makedirs\<close> are the
    functions of \<^verbatim>\<open>os\<close>; \<open>img_save\<close> and \<open>img_close\<close> the methods of the image;
  \<^item> \<open>http_get\<close> fetches the content behind a URL.
\<close>

record ('x, 'img) client =
  dataset_id :: string
  get_dataset_by_id :: "string \<Rightarrow> ('x, DatasetData) io"
  get_all_tags :: "('x, TagData list) io"
  get_sample_mappings :: "string \<Rightarrow> ('x, string list) io"
  to_indices :: "string \<Rightarrow> exn + nat list"
  get_filenames :: "('x, string list) io"
  get_sample_image_read_url_by_id :: "string \<Rightarrow> string \<Rightarrow> ('x, string) io"
  urlopen_read :: "string \<Rightarrow> ('x, string) io"
  image_open :: "string \<Rightarrow> exn + 'img"
  os_path_join :: "string \<Rightarrow> string \<Rightarrow> string"
  os_path_split :: "string \<Rightarrow> string \<times> string"
  os_path_exists :: "string \<Rightarrow> 'x world \<Rightarrow> bool"
  os_makedirs :: "string \<Rightarrow> ('x, unit) io"
  img_save :: "'img \<Rightarrow> string \<Rightarrow> ('x, unit) io"
  img_close :: "'img \<Rightarrow> ('x, unit) io"
  get_embeddings_by_dataset_id :: "string \<Rightarrow> ('x, DatasetEmbeddingData list) io"
  get_embeddings_csv_read_url_by_id :: "string \<Rightarrow> string \<Rightarrow> ('x, string) io"
  http_get :: "string \<Rightarrow> ('x, string) io"

section \<open>Saving one image\<close>

text \<open>\<^verbatim>\<open>_make_dir_and_save_image(output_dir, filename, img)\<close>.\<close>

definition make_dir_and_save_image ::
  "('x, 'img) client \<Rightarrow> string \<Rightarrow> string \<Rightarrow> 'img \<Rightarrow> ('x, unit) prog" where
  "make_dir_and_save_image c output_dir filename img st =
     (let path = os_path_join c output_dir filename;
          head = fst (os_path_split c path)
      in and_then
           (if \<not> os_path_exists c head (world st)
            then invoke (MakeDirs head) (os_makedirs c head)
            else returns ())
           (\<lambda>_. and_then (invoke (ImgSave path) (img_save c img path))
           (\<lambda>_. invoke ImgClose (img_close c img))) st)"

text \<open>\<^verbatim>\<open>_get_image_from_read_url(read_url)\<close>.\<close>

definition get_image_from_read_url :: "('x, 'img) client \<Rightarrow> string \<Rightarrow> ('x, 'img) prog" where
  "get_image_from_read_url c read_url =
     and_then (invoke (UrlOpen read_url) (urlopen_read c read_url))
       (\<lambda>blob. pure_call (image_open c blob))"

section \<open>The download of a dataset\<close>

text \<open>
  The body of the \<^verbatim>\<open>try\<close> block of \<^verbatim>\<open>lambda_\<close>: the signed read URL, the image
  behind it, the file.
\<close>

definition try_download :: "('x, 'img) client \<Rightarrow> string \<Rightarrow> string \<Rightarrow> string \<Rightarrow> ('x, unit) prog" where
  "try_download c output_dir sample_id filename =
     and_then (invoke (GetSampleImageReadUrl (dataset_id c) sample_id)
                 (get_sample_image_read_url_by_id c (dataset_id c) sample_id))
       (\<lambda>read_url. and_then (get_image_from_read_url c read_url)
       (\<lambda>img. make_dir_and_save_image c output_dir filename img))"

text \<open>The update of the progress bar, made only when \<^verbatim>\<open>verbose\<close>.\<close>

definition pbar_update :: "bool \<Rightarrow> 'x state \<Rightarrow> 'x state" where
  "pbar_update verbose st = (if verbose then st\<lparr>pbar := pbar st + 1\<rparr> else st)"

text \<open>
  \<^verbatim>\<open>lambda_(i)\<close> (a name cannot end with an underscore here): the \<^verbatim>\<open>try\<close> block, the handler \<^verbatim>\<open>except Exception as e\<close> that warns
  and sets \<^verbatim>\<open>success = False\<close>, the progress bar, the returned flag.
\<close>

definition lambda_item :: "('x, 'img) client \<Rightarrow> string \<Rightarrow> bool \<Rightarrow> string \<times> string \<Rightarrow> ('x, bool) prog" where
  "lambda_item c output_dir verbose i st =
     (case i of (sample_id, filename) \<Rightarrow>
        (case try_download c output_dir sample_id filename st of
           (Inr _, st1) \<Rightarrow> (Inr True, pbar_update verbose st1)
         | (Inl e, st1) \<Rightarrow> (Inr False, pbar_update verbose (warn (ItemFailed filename e) st1))))"

text \<open>
  \<^verbatim>\<open>list(executor.map(f, items, chunksize=1))\<close>: the results in the order of the
  items; an exception of a call of \<open>f\<close> is raised again when the results are
  collected.  The items are run one at a time, in the order of submission; this is
  the schedule of a pool of one worker, and the position of a result in the list
  is the position of its item for every number of workers.
\<close>

fun executor_map :: "('a \<Rightarrow> 's \<Rightarrow> (exn + 'b) \<times> 's) \<Rightarrow> 'a list \<Rightarrow> 's \<Rightarrow> (exn + 'b list) \<times> 's" where
  "executor_map f [] st = (Inr [], st)"
| "executor_map f (x # xs) st =
     (case f x st of
        (Inl e, st1) \<Rightarrow> (Inl e, st1)
      | (Inr r, st1) \<Rightarrow>
          (case executor_map f xs st1 of
             (Inl e, st2) \<Rightarrow> (Inl e, st2)
           | (Inr rs, st2) \<Rightarrow> (Inr (r # rs), st2)))"

text \<open>\<^verbatim>\<open>xs.index(v)\<close>: the first position of \<open>v\<close>, ValueError when there is none.\<close>

fun list_index :: "'a list \<Rightarrow> 'a \<Rightarrow> exn + nat" where
  "list_index [] v = Inl (ValueError ''value is not in list'')"
| "list_index (x # xs) v =
     (if x = v then Inr 0
      else (case list_index xs v of Inl e \<Rightarrow> Inl e | Inr k \<Rightarrow> Inr (Suc k)))"

text \<open>
  \<^verbatim>\<open>[xs[i] for i in indices]\<close>: Python raises IndexError at the first index that
  is out of range.
\<close>

fun select_at :: "'a list \<Rightarrow> nat list \<Rightarrow> exn + 'a list" where
  "select_at xs [] = Inr []"
| "select_at xs (i # rest) =
     (if i < length xs
      then (case select_at xs rest of Inl e \<Rightarrow> Inl e | Inr ys \<Rightarrow> Inr (xs ! i # ys))
      else Inl (IndexError ''list index out of range''))"

text \<open>
  \<^verbatim>\<open>max_workers = min(len(sample_ids), max_workers); max_workers = max(max_workers, 1)\<close>.
\<close>

definition effective_workers :: "nat \<Rightarrow> int \<Rightarrow> int" where
  "effective_workers n max_workers = max (min (int n) max_workers) 1"

text \<open>
  \<^verbatim>\<open>ThreadPoolExecutor(max_workers=w)\<close>: the constructor raises ValueError unless
  \<open>w\<close> is positive.
\<close>

definition thread_pool :: "int \<Rightarrow> ('x, unit) prog" where
  "thread_pool w st =
     (if w \<le> 0 then (Inl (ValueError ''max_workers must be greater than 0''), st)
      else (Inr (), st\<lparr>calls := calls st @ [ThreadPoolExecutor w]\<rparr>))"

text \<open>
  The download phase of \<^verbatim>\<open>download_dataset\<close>, from the clamp of the worker count to
  the aggregate warning, for the selected sample ids and file names.
\<close>

text \<open>
  The header line printed when \<^verbatim>\<open>verbose\<close>: the number of images and of workers.
\<close>

definition announce :: "bool \<Rightarrow> nat \<Rightarrow> int \<Rightarrow> 'x state \<Rightarrow> 'x state" where
  "announce verbose n workers st =
     (if verbose then st\<lparr>printed := printed st @ [(n, workers)]\<rparr> else st)"

definition download_all ::
  "('x, 'img) client \<Rightarrow> string \<Rightarrow> string list \<Rightarrow> string list \<Rightarrow> int \<Rightarrow> bool \<Rightarrow> ('x, unit) prog" where
  "download_all c output_dir sample_ids filenames max_workers verbose st =
     (let downloadables = zip sample_ids filenames;
          workers = effective_workers (length sample_ids) max_workers
      in and_then (thread_pool workers)
           (\<lambda>_. and_then (executor_map (lambda_item c output_dir verbose) downloadables)
           (\<lambda>results.
              if \<not> list_all (\<lambda>r. r) results
              then and_then (pure_call (list_index results False))
                     (\<lambda>k st2. (Inr (), warn (UnsuccessfulDownload k) st2))
              else returns ()))
           (announce verbose (length sample_ids) workers st))"

text \<open>
  The first part of \<^verbatim>\<open>download_dataset\<close>: the check of the image type, the lookup of
  the tag, the sample ids and file names of the tag.  It returns the two lists
  \<^verbatim>\<open>sample_ids\<close> and \<^verbatim>\<open>filenames\<close> that the source zips into \<^verbatim>\<open>downloadables\<close>.
\<close>

definition resolve_tag :: "('x, 'img) client \<Rightarrow> string \<Rightarrow> ('x, string list \<times> string list) prog" where
  "resolve_tag c tag_name =
     and_then (invoke (GetDatasetById (dataset_id c)) (get_dataset_by_id c (dataset_id c)))
       (\<lambda>dataset.
          if img_type dataset \<noteq> FULL
          then raises (ValueError (''Dataset with id '' @ dataset_id c @ '' has no downloadable images!''))
          else and_then (invoke GetAllTags (get_all_tags c))
       (\<lambda>available_tags.
          case find (\<lambda>tag. name tag = tag_name) available_tags of
            None \<Rightarrow> raises (ValueError (''Dataset with id '' @ dataset_id c @ '' has no tag '' @ tag_name @ ''!''))
          | Some tag \<Rightarrow>
              and_then (invoke (GetSampleMappings (dataset_id c)) (get_sample_mappings c (dataset_id c)))
       (\<lambda>sample_ids. and_then (pure_call (to_indices c (bit_mask_data tag)))
       (\<lambda>indices. and_then (pure_call (select_at sample_ids indices))
       (\<lambda>sample_ids_subset. and_then (invoke GetFilenames (get_filenames c))
       (\<lambda>filenames_on_server. and_then (pure_call (select_at filenames_on_server indices))
       (\<lambda>filenames. returns (sample_ids_subset, filenames))))))))"

text \<open>\<^verbatim>\<open>download_dataset(output_dir, tag_name, max_workers, verbose)\<close>.\<close>

definition download_dataset ::
  "('x, 'img) client \<Rightarrow> string \<Rightarrow> string \<Rightarrow> int \<Rightarrow> bool \<Rightarrow> ('x, unit) prog" where
  "download_dataset c output_dir tag_name max_workers verbose =
     and_then (resolve_tag c tag_name)
       (\<lambda>(sample_ids, filenames). download_all c output_dir sample_ids filenames max_workers verbose)"

section \<open>Embeddings\<close>


text \<open>
  \<^verbatim>\<open>_get_latest_default_embedding_data(embeddings)\<close>.  \<^verbatim>\<open>sorted\<close> is stable, as
  \<open>sort_key\<close> is, and \<^verbatim>\<open>[-1]\<close> is the last element of a list that is not empty.
\<close>

definition get_latest_default_embedding_data ::
  "DatasetEmbeddingData list \<Rightarrow> DatasetEmbeddingData option" where
  "get_latest_default_embedding_data embeddings =
     (let default_embeddings = filter (\<lambda>e. prefix ''default'' (emb_name e)) embeddings
      in if default_embeddings \<noteq> []
         then Some (last (sort_key created_at default_embeddings))
         else None)"






section \<open>The symmetrized negative cosine similarity loss\<close>

text \<open>
  A tensor is a scalar (a tensor of dimension 0) or a sequence of tensors along
  its first dimension.  An argument of \<^verbatim>\<open>forward\<close> is any Python object that the
  callers pass: a tuple of tensors, or a tensor.
\<close>

datatype 'a tensor = Scalar 'a | Tensor "'a tensor list"

datatype 'a pyobj = PyTuple "'a tensor list" | PyTensor "'a tensor"

text \<open>
  The iteration that the assignment \<^verbatim>\<open>z, p = out\<close> performs: a tuple yields its
  elements, a tensor its slices along the first dimension, and a tensor of
  dimension 0 raises TypeError.
\<close>

fun py_iter :: "'a pyobj \<Rightarrow> exn + 'a tensor list" where
  "py_iter (PyTuple ts) = Inr ts"
| "py_iter (PyTensor (Tensor ts)) = Inr ts"
| "py_iter (PyTensor (Scalar v)) = Inl (TypeError ''iteration over a 0-d tensor'')"

text \<open>\<^verbatim>\<open>z, p = out\<close>: ValueError unless the iteration yields two elements.\<close>

definition unpack_pair :: "'a pyobj \<Rightarrow> exn + 'a tensor \<times> 'a tensor" where
  "unpack_pair out =
     (case py_iter out of
        Inl e \<Rightarrow> Inl e
      | Inr items \<Rightarrow>
          (case items of
             [z, p] \<Rightarrow> Inr (z, p)
           | _ \<Rightarrow>
               if length items < 2
               then Inl (ValueError ''not enough values to unpack (expected 2)'')
               else Inl (ValueError ''too many values to unpack (expected 2)'')))"

text \<open>
  The tensor runtime (torch) is a parameter: the cosine similarity along the last
  dimension, the mean of all elements, and the arithmetic of scalars (negation,
  division by a number, addition).
\<close>

record 'a torch =
  cosine_similarity :: "'a tensor \<Rightarrow> 'a tensor \<Rightarrow> exn + 'a tensor"
  mean :: "'a tensor \<Rightarrow> exn + 'a"
  tensor_neg :: "'a \<Rightarrow> 'a"
  tensor_truediv :: "'a \<Rightarrow> int \<Rightarrow> 'a"
  tensor_add :: "'a \<Rightarrow> 'a \<Rightarrow> 'a"

text \<open>\<^verbatim>\<open>y.detach()\<close> has the values of \<open>y\<close>; it only cuts the gradient.\<close>

definition detach :: "'a tensor \<Rightarrow> 'a tensor" where
  "detach y = y"

text \<open>
  \<^verbatim>\<open>_neg_cosine_simililarity(x, y)\<close>.  The state is the list of the pairs whose
  similarity has been computed.
\<close>

definition neg_cosine_simililarity ::
  "'a torch \<Rightarrow> 'a tensor \<Rightarrow> 'a tensor \<Rightarrow> ('a tensor \<times> 'a tensor) list
     \<Rightarrow> (exn + 'a) \<times> ('a tensor \<times> 'a tensor) list" where
  "neg_cosine_simililarity rt x y computed =
     (case cosine_similarity rt x (detach y) of
        Inl e \<Rightarrow> (Inl e, computed @ [(x, y)])
      | Inr sims \<Rightarrow>
          (case mean rt sims of
             Inl e \<Rightarrow> (Inl e, computed @ [(x, y)])
           | Inr m \<Rightarrow> (Inr (tensor_neg rt m), computed @ [(x, y)])))"

text \<open>\<^verbatim>\<open>forward(out0, out1)\<close>.\<close>

definition forward ::
  "'a torch \<Rightarrow> 'a pyobj \<Rightarrow> 'a pyobj \<Rightarrow> ('a tensor \<times> 'a tensor) list
     \<Rightarrow> (exn + 'a) \<times> ('a tensor \<times> 'a tensor) list" where
  "forward rt out0 out1 =
     and_then (pure_call (unpack_pair out0))
       (\<lambda>(z0, p0). and_then (pure_call (unpack_pair out1))
       (\<lambda>(z1, p1). and_then (neg_cosine_simililarity rt p0 z1)
       (\<lambda>a. and_then (neg_cosine_simililarity rt p1 z0)
       (\<lambda>b. returns (tensor_add rt (tensor_truediv rt a 2) (tensor_truediv rt b 2))))))"

text \<open>
  The value of \<^verbatim>\<open>_neg_cosine_simililarity(x, y)\<close>; it does not depend on what has
  been computed before.
\<close>

definition ncs_value :: "'a torch \<Rightarrow> 'a tensor \<Rightarrow> 'a tensor \<Rightarrow> exn + 'a" where
  "ncs_value rt x y = fst (neg_cosine_simililarity rt x y [])"

section \<open>Classes of calls and warnings\<close>

fun item_step :: "call \<Rightarrow> bool" where
  "item_step (UrlOpen _) = True"
| "item_step (MakeDirs _) = True"
| "item_step (ImgSave _) = True"
| "item_step ImgClose = True"
| "item_step _ = False"

fun is_item_warning :: "warning \<Rightarrow> bool" where
  "is_item_warning (ItemFailed _ _) = True"
| "is_item_warning (UnsuccessfulDownload _) = False"

fun is_read_url_request :: "call \<Rightarrow> bool" where
  "is_read_url_request (GetSampleImageReadUrl _ _) = True"
| "is_read_url_request _ = False"

fun is_pool_start :: "call \<Rightarrow> bool" where
  "is_pool_start (ThreadPoolExecutor _) = True"
| "is_pool_start _ = False"

text \<open>The calls and the warnings that a run adds to those of the state it starts in.\<close>

definition new_calls :: "'x state \<Rightarrow> 'x state \<Rightarrow> call list" where
  "new_calls st st1 = drop (length (calls st)) (calls st1)"

definition new_warns :: "'x state \<Rightarrow> 'x state \<Rightarrow> warning list" where
  "new_warns st st1 = drop (length (warns st)) (warns st1)"

text \<open>
  The state in which the executor of \<^verbatim>\<open>download_dataset\<close> starts: the header is
  printed and the pool is created.
\<close>

definition started :: "bool \<Rightarrow> nat \<Rightarrow> int \<Rightarrow> 'x state \<Rightarrow> 'x state" where
  "started verbose n max_workers st =
     (let workers = effective_workers n max_workers;
          st0 = announce verbose n workers st
      in st0\<lparr>calls := calls st0 @ [ThreadPoolExecutor workers]\<rparr>)"

section \<open>A client and a tensor runtime to run the examples\<close>

text \<open>
  A dataset of four samples \<open>a\<close>, \<open>b\<close>, \<open>c\<close>, \<open>d\<close> with the file names \<open>w\<close>, \<open>x\<close>,
  \<open>y\<close>, \<open>z\<close>, a tag of all samples and a tag of the samples 1 and 3, and the three
  embeddings of the example of the spec.  The image of sample \<open>c\<close> cannot be
  decoded.  Directories are files with the content \<open><dir>\<close>.
\<close>

definition demo_embeddings :: "DatasetEmbeddingData list" where
  "demo_embeddings =
     [\<lparr>emb_id = ''e1'', emb_name = ''default_a'', created_at = 100, is_processed = True, is2d = False\<rparr>,
      \<lparr>emb_id = ''e2'', emb_name = ''default_b'', created_at = 200, is_processed = True, is2d = False\<rparr>,
      \<lparr>emb_id = ''e3'', emb_name = ''custom'', created_at = 300, is_processed = True, is2d = False\<rparr>]"

definition demo_tags :: "TagData list" where
  "demo_tags = [\<lparr>name = ''initial-tag'', bit_mask_data = ''0xf''\<rparr>,
                \<lparr>name = ''odd'', bit_mask_data = ''0xa''\<rparr>]"

definition demo_split :: "string \<Rightarrow> string \<times> string" where
  "demo_split p =
     (rev (drop 1 (dropWhile (\<lambda>ch. ch \<noteq> CHR ''/'') (rev p))),
      rev (takeWhile (\<lambda>ch. ch \<noteq> CHR ''/'') (rev p)))"

definition demo_client :: "(unit, string) client" where
  "demo_client =
     \<lparr>dataset_id = ''ds1'',
      get_dataset_by_id = (\<lambda>d w. (Inr \<lparr>img_type = FULL\<rparr>, w)),
      get_all_tags = (\<lambda>w. (Inr demo_tags, w)),
      get_sample_mappings = (\<lambda>d w. (Inr [''a'', ''b'', ''c'', ''d''], w)),
      to_indices = (\<lambda>h. if h = ''0xa'' then Inr [1, 3]
                         else if h = ''0xf'' then Inr [0, 1, 2, 3]
                         else Inl (ValueError ''invalid literal for int() with base 16'')),
      get_filenames = (\<lambda>w. (Inr [''w'', ''x'', ''y'', ''z''], w)),
      get_sample_image_read_url_by_id = (\<lambda>d s w. (Inr (''signed:'' @ s), w)),
      urlopen_read = (\<lambda>u w. (Inr u, w)),
      image_open = (\<lambda>blob. if blob = ''signed:c''
                            then Inl (OtherException ''UnidentifiedImageError'' ''cannot identify image file'')
                            else Inr blob),
      os_path_join = (\<lambda>a b. a @ ''/'' @ b),
      os_path_split = demo_split,
      os_path_exists = (\<lambda>p w. files w p \<noteq> None),
      os_makedirs = (\<lambda>p w. (Inr (), w\<lparr>files := (files w)(p \<mapsto> ''<dir>'')\<rparr>)),
      img_save = (\<lambda>img p w. (Inr (), w\<lparr>files := (files w)(p \<mapsto> img)\<rparr>)),
      img_close = (\<lambda>img w. (Inr (), w)),
      get_embeddings_by_dataset_id = (\<lambda>d w. (Inr demo_embeddings, w)),
      get_embeddings_csv_read_url_by_id = (\<lambda>d e w. (Inr (''signed:csv:'' @ e), w)),
      http_get = (\<lambda>u w. (Inr (''content of '' @ u), w))\<rparr>"

definition demo_state :: "unit state" where
  "demo_state =
     \<lparr>world = \<lparr>files = Map.empty, remote = ()\<rparr>, calls = [], warns = [], printed = [], pbar = 0\<rparr>"

text \<open>
  A runtime over the real numbers, for vectors and for batches of vectors of the
  same shape: the cosine similarity \<open>x \<bullet> y / (max \<parallel>x\<parallel> eps * max \<parallel>y\<parallel> eps)\<close> with
  \<open>eps = 10\<^sup>-\<^sup>8\<close>, and the mean of the elements.
\<close>

fun scalar_of :: "'a tensor \<Rightarrow> 'a option" where
  "scalar_of (Scalar v) = Some v"
| "scalar_of (Tensor ts) = None"

fun vector_of :: "'a tensor \<Rightarrow> 'a list option" where
  "vector_of (Scalar v) = None"
| "vector_of (Tensor ts) = those (map scalar_of ts)"

definition dot :: "real list \<Rightarrow> real list \<Rightarrow> real" where
  "dot u v = sum_list (map2 (\<lambda>a b. a * b) u v)"

definition cos_vec :: "real list \<Rightarrow> real list \<Rightarrow> real" where
  "cos_vec u v = dot u v / (max (sqrt (dot u u)) (1 / 10 ^ 8) * max (sqrt (dot v v)) (1 / 10 ^ 8))"

fun cos_rows :: "real tensor list \<Rightarrow> real tensor list \<Rightarrow> exn + real tensor list" where
  "cos_rows [] [] = Inr []"
| "cos_rows (x # xs) (y # ys) =
     (case (vector_of x, vector_of y) of
        (Some u, Some v) \<Rightarrow>
          if length u = length v
          then (case cos_rows xs ys of Inl e \<Rightarrow> Inl e | Inr rs \<Rightarrow> Inr (Scalar (cos_vec u v) # rs))
          else Inl (RuntimeError ''The size of tensor a must match the size of tensor b'')
      | _ \<Rightarrow> Inl (RuntimeError ''unsupported shape''))"
| "cos_rows _ _ = Inl (RuntimeError ''The size of tensor a must match the size of tensor b'')"

definition real_cosine_similarity :: "real tensor \<Rightarrow> real tensor \<Rightarrow> exn + real tensor" where
  "real_cosine_similarity x y =
     (case (vector_of x, vector_of y) of
        (Some u, Some v) \<Rightarrow>
          if length u = length v then Inr (Scalar (cos_vec u v))
          else Inl (RuntimeError ''The size of tensor a must match the size of tensor b'')
      | _ \<Rightarrow>
          (case (x, y) of
             (Tensor xs, Tensor ys) \<Rightarrow>
               (case cos_rows xs ys of Inl e \<Rightarrow> Inl e | Inr rs \<Rightarrow> Inr (Tensor rs))
           | _ \<Rightarrow> Inl (RuntimeError ''unsupported shape'')))"

definition real_mean :: "real tensor \<Rightarrow> exn + real" where
  "real_mean t =
     (case t of
        Scalar v \<Rightarrow> Inr v
      | Tensor ts \<Rightarrow>
          (case those (map scalar_of ts) of
             Some vs \<Rightarrow> if vs = [] then Inl (RuntimeError ''mean of no element'')
                       else Inr (sum_list vs / real (length vs))
           | None \<Rightarrow> Inl (RuntimeError ''unsupported shape'')))"

definition real_torch :: "real torch" where
  "real_torch =
     \<lparr>cosine_similarity = real_cosine_similarity,
      mean = real_mean,
      tensor_neg = (\<lambda>a. - a),
      tensor_truediv = (\<lambda>a k. a / real_of_int k),
      tensor_add = (\<lambda>a b. a + b)\<rparr>"

text \<open>
  Variants of the client: a dataset of thumbnails, a server that lists three
  sample ids only, and a server that lists two file names only.
\<close>

definition thumbnail_client :: "(unit, string) client" where
  "thumbnail_client = demo_client\<lparr>get_dataset_by_id := (\<lambda>d w. (Inr \<lparr>img_type = THUMBNAIL\<rparr>, w))\<rparr>"

definition few_ids_client :: "(unit, string) client" where
  "few_ids_client = demo_client\<lparr>get_sample_mappings := (\<lambda>d w. (Inr [''a'', ''b'', ''c''], w))\<rparr>"

definition few_names_client :: "(unit, string) client" where
  "few_names_client = demo_client\<lparr>get_filenames := (\<lambda>w. (Inr [''w'', ''x''], w))\<rparr>"



section \<open>What a call leaves unchanged\<close>

lemma invoke_frame:
  "invoke ev op st = (r, st') \<Longrightarrow>
     calls st' = calls st @ [ev] \<and> warns st' = warns st \<and> printed st' = printed st \<and> pbar st' = pbar st"
  by (auto simp: invoke_def split: prod.splits)

lemma get_image_frame:
  "get_image_from_read_url c u st = (r, st') \<Longrightarrow>
     calls st' = calls st @ [UrlOpen u] \<and> warns st' = warns st \<and> printed st' = printed st \<and> pbar st' = pbar st"
  unfolding get_image_from_read_url_def and_then_def pure_call_def
  by (auto split: prod.splits sum.splits dest: invoke_frame)

lemma make_dir_frame:
  "make_dir_and_save_image c od fn img st = (r, st') \<Longrightarrow>
     \<exists>cs. calls st' = calls st @ cs \<and> list_all item_step cs \<and>
          warns st' = warns st \<and> printed st' = printed st \<and> pbar st' = pbar st"
  unfolding make_dir_and_save_image_def and_then_def returns_def Let_def
  by (auto split: prod.splits sum.splits if_splits dest!: invoke_frame)

lemma try_download_frame:
  "try_download c od sid fn st = (r, st') \<Longrightarrow>
     \<exists>cs. calls st' = calls st @ GetSampleImageReadUrl (dataset_id c) sid # cs \<and> list_all item_step cs \<and>
          warns st' = warns st \<and> printed st' = printed st \<and> pbar st' = pbar st"
  unfolding try_download_def and_then_def
  by (auto split: prod.splits sum.splits dest!: invoke_frame get_image_frame make_dir_frame)


lemma item_step_other:
  "item_step a \<Longrightarrow> \<not> is_read_url_request a \<and> \<not> is_pool_start a"
  by (cases a) simp_all

lemma item_step_filters:
  "list_all item_step cs \<Longrightarrow> filter is_read_url_request cs = [] \<and> filter is_pool_start cs = []"
  by (induction cs) (simp_all add: item_step_other)

lemma pbar_update_frame:
  "calls (pbar_update v st) = calls st \<and> warns (pbar_update v st) = warns st \<and>
   printed (pbar_update v st) = printed st \<and> pbar (pbar_update v st) = pbar st + (if v then 1 else 0)"
  by (simp add: pbar_update_def)

lemma warn_frame:
  "calls (warn w st) = calls st \<and> warns (warn w st) = warns st @ [w] \<and>
   printed (warn w st) = printed st \<and> pbar (warn w st) = pbar st"
  by (simp add: warn_def)

lemma lambda_item_frame:
  assumes "lambda_item c od v (sid, fn) st = (r, st')"
  shows "\<exists>b cs ws. r = Inr b \<and>
           calls st' = calls st @ GetSampleImageReadUrl (dataset_id c) sid # cs \<and> list_all item_step cs \<and>
           warns st' = warns st @ ws \<and> (if b then ws = [] else \<exists>e. ws = [ItemFailed fn e]) \<and>
           printed st' = printed st \<and> pbar st' = pbar st + (if v then 1 else 0)"
proof -
  obtain r0 st1 where t: "try_download c od sid fn st = (r0, st1)"
    by (cases "try_download c od sid fn st")
  from try_download_frame [OF t] obtain cs where
    cs: "calls st1 = calls st @ GetSampleImageReadUrl (dataset_id c) sid # cs" "list_all item_step cs" and
    fr: "warns st1 = warns st" "printed st1 = printed st" "pbar st1 = pbar st"
    by (elim exE conjE) (rule that)
  show ?thesis
  proof (cases r0)
    case (Inr u)
    with assms t have res: "r = Inr True" "st' = pbar_update v st1"
      by (simp_all add: lambda_item_def)
    show ?thesis
    proof (intro exI conjI)
      show "r = Inr True" by (rule res(1))
      show "calls st' = calls st @ GetSampleImageReadUrl (dataset_id c) sid # cs"
        by (simp add: res(2) pbar_update_frame cs(1))
      show "list_all item_step cs" by (rule cs(2))
      show "warns st' = warns st @ []" by (simp add: res(2) pbar_update_frame fr(1))
      show "if True then [] = [] else \<exists>e. [] = [ItemFailed fn e]" by simp
      show "printed st' = printed st" by (simp add: res(2) pbar_update_frame fr(2))
      show "pbar st' = pbar st + (if v then 1 else 0)" by (simp add: res(2) pbar_update_frame fr(3))
    qed
  next
    case (Inl e)
    with assms t have res: "r = Inr False" "st' = pbar_update v (warn (ItemFailed fn e) st1)"
      by (simp_all add: lambda_item_def)
    show ?thesis
    proof (intro exI conjI)
      show "r = Inr False" by (rule res(1))
      show "calls st' = calls st @ GetSampleImageReadUrl (dataset_id c) sid # cs"
        by (simp add: res(2) pbar_update_frame warn_frame cs(1))
      show "list_all item_step cs" by (rule cs(2))
      show "warns st' = warns st @ [ItemFailed fn e]"
        by (simp add: res(2) pbar_update_frame warn_frame fr(1))
      show "if False then [ItemFailed fn e] = [] else \<exists>e'. [ItemFailed fn e] = [ItemFailed fn e']" by simp
      show "printed st' = printed st" by (simp add: res(2) pbar_update_frame warn_frame fr(2))
      show "pbar st' = pbar st + (if v then 1 else 0)"
        by (simp add: res(2) pbar_update_frame warn_frame fr(3))
    qed
  qed
qed

lemma executor_map_lambda_item:
  "\<exists>results st1 cs ws.
      executor_map (lambda_item c od v) items st = (Inr results, st1) \<and>
      length results = length items \<and>
      calls st1 = calls st @ cs \<and>
      length (filter is_read_url_request cs) = length items \<and>
      filter is_pool_start cs = [] \<and>
      warns st1 = warns st @ ws \<and> list_all is_item_warning ws \<and>
      length ws = length (filter Not results) \<and>
      printed st1 = printed st \<and>
      pbar st1 = pbar st + (if v then length items else 0)"
proof (induction items arbitrary: st)
  case Nil
  show ?case by simp
next
  case (Cons i items)
  obtain sid fn where i: "i = (sid, fn)" by (cases i)
  obtain r st0 where step: "lambda_item c od v (sid, fn) st = (r, st0)"
    by (cases "lambda_item c od v (sid, fn) st")
  from lambda_item_frame [OF step] obtain b cs0 ws0 where
    r: "r = Inr b" and
    c0: "calls st0 = calls st @ GetSampleImageReadUrl (dataset_id c) sid # cs0" "list_all item_step cs0" and
    w0: "warns st0 = warns st @ ws0" "if b then ws0 = [] else \<exists>e. ws0 = [ItemFailed fn e]" and
    p0: "printed st0 = printed st" "pbar st0 = pbar st + (if v then 1 else 0)"
    by (elim exE conjE) (rule that)
  from Cons.IH [of st0] obtain results st1 cs ws where
    run: "executor_map (lambda_item c od v) items st0 = (Inr results, st1)" and
    len: "length results = length items" and
    c1: "calls st1 = calls st0 @ cs" "length (filter is_read_url_request cs) = length items"
        "filter is_pool_start cs = []" and
    w1: "warns st1 = warns st0 @ ws" "list_all is_item_warning ws" "length ws = length (filter Not results)" and
    p1: "printed st1 = printed st0" "pbar st1 = pbar st0 + (if v then length items else 0)"
    by (elim exE conjE) (rule that)
  have run': "executor_map (lambda_item c od v) (i # items) st = (Inr (b # results), st1)"
    using step run by (simp add: i r)
  have calls': "calls st1 = calls st @ (GetSampleImageReadUrl (dataset_id c) sid # cs0 @ cs)"
    using c0 c1 by simp
  have filt: "length (filter is_read_url_request (GetSampleImageReadUrl (dataset_id c) sid # cs0 @ cs)) = length (i # items)"
       "filter is_pool_start (GetSampleImageReadUrl (dataset_id c) sid # cs0 @ cs) = []"
    using c1 item_step_filters [OF c0(2)] by simp_all
  have warns': "warns st1 = warns st @ (ws0 @ ws)" using w0 w1 by simp
  have wp1: "list_all is_item_warning (ws0 @ ws)"
    using w0(2) w1(2) by (cases b) auto
  have wp2: "length (ws0 @ ws) = length (filter Not (b # results))"
    using w0(2) w1(3) by (cases b) auto
  have pp1: "printed st1 = printed st" using p0 p1 by simp
  have pp2: "pbar st1 = pbar st + (if v then length (i # items) else 0)"
    using p0 p1 by simp
  have len': "length (b # results) = length (i # items)" using len by simp
  show ?case
  proof (intro exI conjI)
    show "executor_map (lambda_item c od v) (i # items) st = (Inr (b # results), st1)"
      by (rule run')
    show "length (b # results) = length (i # items)" by (rule len')
    show "calls st1 = calls st @ (GetSampleImageReadUrl (dataset_id c) sid # cs0 @ cs)"
      by (rule calls')
    show "length (filter is_read_url_request (GetSampleImageReadUrl (dataset_id c) sid # cs0 @ cs)) = length (i # items)"
      by (rule filt(1))
    show "filter is_pool_start (GetSampleImageReadUrl (dataset_id c) sid # cs0 @ cs) = []"
      by (rule filt(2))
    show "warns st1 = warns st @ (ws0 @ ws)" by (rule warns')
    show "list_all is_item_warning (ws0 @ ws)" by (rule wp1)
    show "length (ws0 @ ws) = length (filter Not (b # results))" by (rule wp2)
    show "printed st1 = printed st" by (rule pp1)
    show "pbar st1 = pbar st + (if v then length (i # items) else 0)" by (rule pp2)
  qed
qed

lemma list_index_first_False:
  "\<not> list_all (\<lambda>r. r) rs \<Longrightarrow> list_index rs False = Inr (length (takeWhile (\<lambda>r. r) rs))"
  by (induction rs) auto

lemma new_calls_append: "calls st1 = calls st @ cs \<Longrightarrow> new_calls st st1 = cs"
  by (simp add: new_calls_def)

lemma new_warns_append: "warns st1 = warns st @ ws \<Longrightarrow> new_warns st st1 = ws"
  by (simp add: new_warns_def)

lemma thread_pool_effective:
  "thread_pool (effective_workers n mw) (announce v n (effective_workers n mw) st) = (Inr (), started v n mw st)"
  by (simp add: thread_pool_def effective_workers_def started_def Let_def)

lemma started_frame:
  "calls (started v n mw st) = calls st @ [ThreadPoolExecutor (effective_workers n mw)] \<and>
   warns (started v n mw st) = warns st"
  by (simp add: started_def announce_def Let_def)

lemma takeWhile_first_False:
  "\<not> list_all (\<lambda>r. r) rs \<Longrightarrow>
     length (takeWhile (\<lambda>r. r) rs) < length rs \<and> \<not> rs ! length (takeWhile (\<lambda>r. r) rs) \<and>
     (\<forall>j < length (takeWhile (\<lambda>r. r) rs). rs ! j)"
  by (induction rs) (auto simp: nth_Cons split: nat.splits)

lemma download_all_after_map:
  assumes "executor_map (lambda_item c od v) (zip sids fns) (started v (length sids) mw st) = (Inr results, st1)"
  shows "download_all c od sids fns mw v st =
           (Inr (), if list_all (\<lambda>r. r) results then st1
                    else warn (UnsuccessfulDownload (length (takeWhile (\<lambda>r. r) results))) st1)"
  using assms
  by (simp add: download_all_def Let_def and_then_def thread_pool_effective pure_call_def returns_def
        list_index_first_False)

section \<open>The download phase\<close>

lemmas demo_run =
  lambda_item_def try_download_def and_then_def invoke_def get_image_from_read_url_def pure_call_def
  make_dir_and_save_image_def returns_def raises_def demo_client_def demo_state_def demo_split_def
  demo_tags_def
  started_def announce_def effective_workers_def pbar_update_def warn_def Let_def

lemma demo_five_items:
  "fst (executor_map (lambda_item demo_client ''out'' True)
          (zip [''a'', ''b'', ''c'', ''d'', ''e''] [''v'', ''w'', ''x'', ''y'', ''z''])
          (started True (length [''a'', ''b'', ''c'', ''d'', ''e'']) 8 demo_state)) =
     Inr [True, True, False, True, True]"
  by (simp add: demo_run)

text \<open>
  Claim C1.  The download phase of \<^verbatim>\<open>download_dataset\<close> never raises: every call of
  \<^verbatim>\<open>lambda_\<close> returns a flag, one for every item and in the order of the items, and
  the phase returns.  Beside the warnings of the items (one for every item that
  failed) the phase emits exactly one warning when a flag is False, which holds the
  position of the first False in the list of results, and none when all flags are
  True.
\<close>

theorem download_phase_never_raises:
  "\<exists>results st1 st2.
     executor_map (lambda_item c output_dir verbose) (zip sample_ids filenames)
        (started verbose (length sample_ids) max_workers st) = (Inr results, st1) \<and>
     length results = length (zip sample_ids filenames) \<and>
     download_all c output_dir sample_ids filenames max_workers verbose st = (Inr (), st2) \<and>
     filter (\<lambda>w. \<not> is_item_warning w) (new_warns st st2) =
       (if list_all (\<lambda>r. r) results then []
        else [UnsuccessfulDownload (length (takeWhile (\<lambda>r. r) results))]) \<and>
     length (filter is_item_warning (new_warns st st2)) = length (filter Not results) \<and>
     (\<not> list_all (\<lambda>r. r) results \<longrightarrow>
        length (takeWhile (\<lambda>r. r) results) < length results \<and>
        \<not> results ! length (takeWhile (\<lambda>r. r) results) \<and>
        (\<forall>j < length (takeWhile (\<lambda>r. r) results). results ! j))"
proof -
  let ?st0 = "started verbose (length sample_ids) max_workers st"
  from executor_map_lambda_item [of c output_dir verbose "zip sample_ids filenames" ?st0]
  obtain results st1 cs ws where
    run: "executor_map (lambda_item c output_dir verbose) (zip sample_ids filenames) ?st0 = (Inr results, st1)" and
    len: "length results = length (zip sample_ids filenames)" and
    ws: "warns st1 = warns ?st0 @ ws" "list_all is_item_warning ws" "length ws = length (filter Not results)"
    by (elim exE conjE) (rule that)
  let ?k = "length (takeWhile (\<lambda>r. r) results)"
  let ?st2 = "if list_all (\<lambda>r. r) results then st1 else warn (UnsuccessfulDownload ?k) st1"
  have w1: "warns st1 = warns st @ ws" using ws(1) by (simp add: started_frame)
  have nw: "new_warns st ?st2 = (if list_all (\<lambda>r. r) results then ws else ws @ [UnsuccessfulDownload ?k])"
    by (simp add: new_warns_def w1 warn_frame)
  have f1: "filter (\<lambda>w. \<not> is_item_warning w) ws = []"
    using ws(2) by (simp add: list_all_iff)
  have f2: "filter is_item_warning ws = ws"
    using ws(2) by (simp add: list_all_iff)
  have a: "filter (\<lambda>w. \<not> is_item_warning w) (new_warns st ?st2) =
       (if list_all (\<lambda>r. r) results then [] else [UnsuccessfulDownload ?k])"
    by (simp add: nw f1)
  have b: "length (filter is_item_warning (new_warns st ?st2)) = length (filter Not results)"
    by (simp add: nw f2 ws(3))
  have c: "\<not> list_all (\<lambda>r. r) results \<longrightarrow>
        ?k < length results \<and> \<not> results ! ?k \<and> (\<forall>j < ?k. results ! j)"
    using takeWhile_first_False [of results] by blast
  from run len download_all_after_map [OF run] a b c show ?thesis by blast
qed

theorem download_phase_never_raises_witness:
  "\<exists>st2. download_all demo_client ''out'' [''a'', ''b'', ''c'', ''d'', ''e'']
            [''v'', ''w'', ''x'', ''y'', ''z''] 8 True demo_state = (Inr (), st2) \<and>
         filter (\<lambda>w. \<not> is_item_warning w) (new_warns demo_state st2) = [UnsuccessfulDownload 2] \<and>
         length (filter is_item_warning (new_warns demo_state st2)) = 1"
proof -
  from download_phase_never_raises [of demo_client "''out''" True
      "[''a'', ''b'', ''c'', ''d'', ''e'']" "[''v'', ''w'', ''x'', ''y'', ''z'']" 8 demo_state]
  obtain results st1 st2 where
    run: "executor_map (lambda_item demo_client ''out'' True)
            (zip [''a'', ''b'', ''c'', ''d'', ''e''] [''v'', ''w'', ''x'', ''y'', ''z''])
            (started True (length [''a'', ''b'', ''c'', ''d'', ''e'']) 8 demo_state) = (Inr results, st1)" and
    all: "download_all demo_client ''out'' [''a'', ''b'', ''c'', ''d'', ''e'']
            [''v'', ''w'', ''x'', ''y'', ''z''] 8 True demo_state = (Inr (), st2)" and
    agg: "filter (\<lambda>w. \<not> is_item_warning w) (new_warns demo_state st2) =
       (if list_all (\<lambda>r. r) results then []
        else [UnsuccessfulDownload (length (takeWhile (\<lambda>r. r) results))])" and
    items: "length (filter is_item_warning (new_warns demo_state st2)) = length (filter Not results)"
    by (elim exE conjE) (rule that)
  have "(Inr results :: exn + bool list) =
        fst (executor_map (lambda_item demo_client ''out'' True)
            (zip [''a'', ''b'', ''c'', ''d'', ''e''] [''v'', ''w'', ''x'', ''y'', ''z''])
            (started True (length [''a'', ''b'', ''c'', ''d'', ''e'']) 8 demo_state))"
    by (simp only: run fst_conv)
  also have "\<dots> = Inr [True, True, False, True, True]" by (rule demo_five_items)
  finally have "results = [True, True, False, True, True]" by (simp only: sum.inject)
  with all agg items show ?thesis by simp
qed

lemma download_all_pool:
  "\<exists>st2. download_all c od sids fns mw v st = (Inr (), st2) \<and>
         filter is_pool_start (new_calls st st2) = [ThreadPoolExecutor (effective_workers (length sids) mw)]"
proof -
  let ?st0 = "started v (length sids) mw st"
  from executor_map_lambda_item [of c od v "zip sids fns" ?st0]
  obtain results st1 cs where
    run: "executor_map (lambda_item c od v) (zip sids fns) ?st0 = (Inr results, st1)" and
    cs: "calls st1 = calls ?st0 @ cs" "filter is_pool_start cs = []"
    by (elim exE conjE) (rule that)
  let ?st2 = "if list_all (\<lambda>r. r) results then st1
              else warn (UnsuccessfulDownload (length (takeWhile (\<lambda>r. r) results))) st1"
  have "calls ?st2 = calls st @ (ThreadPoolExecutor (effective_workers (length sids) mw) # cs)"
    using cs(1) by (simp add: started_frame warn_frame)
  then have "new_calls st ?st2 = ThreadPoolExecutor (effective_workers (length sids) mw) # cs"
    by (rule new_calls_append)
  then have "filter is_pool_start (new_calls st ?st2) = [ThreadPoolExecutor (effective_workers (length sids) mw)]"
    using cs(2) by simp
  with download_all_after_map [OF run] show ?thesis by blast
qed

lemma download_all_nothing:
  "download_all c od [] fns mw v st = (Inr (), started v 0 mw st)"
  by (simp add: download_all_def Let_def and_then_def thread_pool_effective returns_def)

text \<open>
  Claim C4.  The pool of \<^verbatim>\<open>download_dataset\<close> is created with
  \<open>max 1 (min max_workers n)\<close> workers for \<open>n\<close> selected items: at least one, and
  at most \<open>n\<close> when there is an item.  With 3 items and \<open>max_workers = 8\<close> it has
  3 workers; with no item it has 1 worker, and the phase returns without a warning.
  The constructor of the pool, which raises for a count that is not positive,
  never raises.
\<close>

theorem worker_count_is_clamped:
  "effective_workers n max_workers = max 1 (min max_workers (int n)) \<and>
   1 \<le> effective_workers n max_workers \<and>
   (0 < n \<longrightarrow> effective_workers n max_workers \<le> int n) \<and>
   effective_workers 3 8 = 3 \<and>
   effective_workers 0 max_workers = 1 \<and>
   (\<exists>st2. download_all c output_dir sample_ids filenames max_workers verbose st = (Inr (), st2) \<and>
      filter is_pool_start (new_calls st st2) =
        [ThreadPoolExecutor (effective_workers (length sample_ids) max_workers)]) \<and>
   (\<exists>st2. download_all c output_dir [] filenames max_workers verbose st = (Inr (), st2) \<and>
      new_calls st st2 = [ThreadPoolExecutor 1] \<and> warns st2 = warns st)"
proof -
  have a: "effective_workers n max_workers = max 1 (min max_workers (int n))"
    by (simp add: effective_workers_def max.commute min.commute)
  have b: "1 \<le> effective_workers n max_workers" by (simp add: effective_workers_def)
  have c: "0 < n \<longrightarrow> effective_workers n max_workers \<le> int n"
    by (auto simp: effective_workers_def)
  have d: "effective_workers 3 8 = 3" by (simp add: effective_workers_def)
  have e: "effective_workers 0 max_workers = 1" by (simp add: effective_workers_def)
  have g: "\<exists>st2. download_all c output_dir [] filenames max_workers verbose st = (Inr (), st2) \<and>
      new_calls st st2 = [ThreadPoolExecutor 1] \<and> warns st2 = warns st"
    using e by (simp add: download_all_nothing new_calls_def started_frame)
  from a b c d e download_all_pool [of c output_dir sample_ids filenames max_workers verbose st] g
  show ?thesis by blast
qed

theorem worker_count_is_clamped_witness:
  "(0::nat) < 3 \<and> effective_workers 3 8 \<le> 3 \<and>
   (\<exists>st2. download_all demo_client ''out'' [''a'', ''b'', ''d''] [''w'', ''x'', ''z''] 8 False demo_state = (Inr (), st2) \<and>
      filter is_pool_start (new_calls demo_state st2) = [ThreadPoolExecutor 3])"
  using worker_count_is_clamped [of 3 8 demo_client "''out''" "[''a'', ''b'', ''d'']"
      "[''w'', ''x'', ''z'']" False demo_state]
  by (simp add: effective_workers_def)

section \<open>One item\<close>

text \<open>
  Every step of the \<^verbatim>\<open>try\<close> block that raises makes the block raise: the request of
  the signed URL, the fetch, the decoding, the creation of the directory, the write.
\<close>

lemmas item_run = try_download_def get_image_from_read_url_def make_dir_and_save_image_def
  and_then_def invoke_def pure_call_def returns_def Let_def

lemma try_download_raises:
  "get_sample_image_read_url_by_id c (dataset_id c) sid (world st) = (Inl e, w1) \<Longrightarrow>
     fst (try_download c od sid fn st) = Inl e"
  "get_sample_image_read_url_by_id c (dataset_id c) sid (world st) = (Inr u, w1) \<Longrightarrow>
   urlopen_read c u w1 = (Inl e, w2) \<Longrightarrow>
     fst (try_download c od sid fn st) = Inl e"
  "get_sample_image_read_url_by_id c (dataset_id c) sid (world st) = (Inr u, w1) \<Longrightarrow>
   urlopen_read c u w1 = (Inr blob, w2) \<Longrightarrow> image_open c blob = Inl e \<Longrightarrow>
     fst (try_download c od sid fn st) = Inl e"
  "get_sample_image_read_url_by_id c (dataset_id c) sid (world st) = (Inr u, w1) \<Longrightarrow>
   urlopen_read c u w1 = (Inr blob, w2) \<Longrightarrow> image_open c blob = Inr img \<Longrightarrow>
   \<not> os_path_exists c (fst (os_path_split c (os_path_join c od fn))) w2 \<Longrightarrow>
   os_makedirs c (fst (os_path_split c (os_path_join c od fn))) w2 = (Inl e, w3) \<Longrightarrow>
     fst (try_download c od sid fn st) = Inl e"
  "get_sample_image_read_url_by_id c (dataset_id c) sid (world st) = (Inr u, w1) \<Longrightarrow>
   urlopen_read c u w1 = (Inr blob, w2) \<Longrightarrow> image_open c blob = Inr img \<Longrightarrow>
   os_path_exists c (fst (os_path_split c (os_path_join c od fn))) w2 \<Longrightarrow>
   img_save c img (os_path_join c od fn) w2 = (Inl e, w3) \<Longrightarrow>
     fst (try_download c od sid fn st) = Inl e"
  "get_sample_image_read_url_by_id c (dataset_id c) sid (world st) = (Inr u, w1) \<Longrightarrow>
   urlopen_read c u w1 = (Inr blob, w2) \<Longrightarrow> image_open c blob = Inr img \<Longrightarrow>
   \<not> os_path_exists c (fst (os_path_split c (os_path_join c od fn))) w2 \<Longrightarrow>
   os_makedirs c (fst (os_path_split c (os_path_join c od fn))) w2 = (Inr (), w3) \<Longrightarrow>
   img_save c img (os_path_join c od fn) w3 = (Inl e, w4) \<Longrightarrow>
     fst (try_download c od sid fn st) = Inl e"
  by (simp_all add: item_run)

lemma try_download_once:
  assumes "try_download c od sid fn st = (r, st1)"
  shows "filter is_read_url_request (new_calls st st1) = [GetSampleImageReadUrl (dataset_id c) sid]"
proof -
  from try_download_frame [OF assms] obtain cs where
    cs: "calls st1 = calls st @ GetSampleImageReadUrl (dataset_id c) sid # cs" "list_all item_step cs"
    by (elim exE conjE) (rule that)
  from cs(1) have "new_calls st st1 = GetSampleImageReadUrl (dataset_id c) sid # cs"
    by (rule new_calls_append)
  then show ?thesis using item_step_filters [OF cs(2)] by simp
qed

lemma lambda_item_failure:
  assumes "try_download c od sid fn st = (Inl e, st1)"
  shows "lambda_item c od v (sid, fn) st = (Inr False, pbar_update v (warn (ItemFailed fn e) st1))"
  using assms by (simp add: lambda_item_def)

text \<open>
  Claim C5.  When the \<^verbatim>\<open>try\<close> block of an item raises \<open>e\<close> (the request of the signed
  URL, the fetch, the decoding of the image, the creation of the directory or the
  write), \<^verbatim>\<open>lambda_\<close> emits the warning that names the file and the error, and
  returns False.  The signed URL of the item has been requested once: there is no
  second attempt.  The executor goes on with the remaining items, whose results
  follow the False of the failed item, each of them requested once.
\<close>

theorem failed_item_warns_and_batch_continues:
  assumes "try_download c output_dir sample_id filename st = (Inl e, st1)"
  shows "lambda_item c output_dir verbose (sample_id, filename) st =
           (Inr False, pbar_update verbose (warn (ItemFailed filename e) st1)) \<and>
         new_warns st (pbar_update verbose (warn (ItemFailed filename e) st1)) = [ItemFailed filename e] \<and>
         filter is_read_url_request (new_calls st (pbar_update verbose (warn (ItemFailed filename e) st1))) =
           [GetSampleImageReadUrl (dataset_id c) sample_id] \<and>
         (\<exists>results st2 cs.
            executor_map (lambda_item c output_dir verbose) ((sample_id, filename) # rest) st =
              (Inr (False # results), st2) \<and>
            executor_map (lambda_item c output_dir verbose) rest
              (pbar_update verbose (warn (ItemFailed filename e) st1)) = (Inr results, st2) \<and>
            length results = length rest \<and>
            calls st2 = calls (pbar_update verbose (warn (ItemFailed filename e) st1)) @ cs \<and>
            length (filter is_read_url_request cs) = length rest)"
proof -
  let ?st' = "pbar_update verbose (warn (ItemFailed filename e) st1)"
  have step: "lambda_item c output_dir verbose (sample_id, filename) st = (Inr False, ?st')"
    using assms by (rule lambda_item_failure)
  from try_download_frame [OF assms] have "warns st1 = warns st" by blast
  then have w: "new_warns st ?st' = [ItemFailed filename e]"
    by (simp add: new_warns_def pbar_update_frame warn_frame)
  have "new_calls st ?st' = new_calls st st1"
    by (simp add: new_calls_def pbar_update_frame warn_frame)
  then have once: "filter is_read_url_request (new_calls st ?st') =
      [GetSampleImageReadUrl (dataset_id c) sample_id]"
    using try_download_once [OF assms] by simp
  from executor_map_lambda_item [of c output_dir verbose rest ?st']
  obtain results st2 cs where
    run: "executor_map (lambda_item c output_dir verbose) rest ?st' = (Inr results, st2)" and
    len: "length results = length rest" and
    cs: "calls st2 = calls ?st' @ cs" "length (filter is_read_url_request cs) = length rest"
    by (elim exE conjE) (rule that)
  have all: "executor_map (lambda_item c output_dir verbose) ((sample_id, filename) # rest) st =
      (Inr (False # results), st2)"
    using step run by simp
  from step w once all run len cs show ?thesis by blast
qed

lemma demo_item_c_fails:
  "fst (try_download demo_client ''out'' ''c'' ''y'' demo_state) =
     Inl (OtherException ''UnidentifiedImageError'' ''cannot identify image file'')"
  by (simp add: demo_run)

theorem failed_item_warns_and_batch_continues_witness:
  "\<exists>st2. executor_map (lambda_item demo_client ''out'' True) [(''c'', ''y''), (''d'', ''z'')] demo_state =
            (Inr [False, True], st2) \<and>
         warns st2 = [ItemFailed ''y'' (OtherException ''UnidentifiedImageError'' ''cannot identify image file'')] \<and>
         filter is_read_url_request (calls st2) =
           [GetSampleImageReadUrl ''ds1'' ''c'', GetSampleImageReadUrl ''ds1'' ''d'']"
proof -
  obtain r st1 where t: "try_download demo_client ''out'' ''c'' ''y'' demo_state = (r, st1)"
    by (cases "try_download demo_client ''out'' ''c'' ''y'' demo_state")
  with demo_item_c_fails have r: "r = Inl (OtherException ''UnidentifiedImageError'' ''cannot identify image file'')"
    by simp
  from failed_item_warns_and_batch_continues [OF t [unfolded r], of True "[(''d'', ''z'')]"]
  obtain results st2 where
    "executor_map (lambda_item demo_client ''out'' True) [(''c'', ''y''), (''d'', ''z'')] demo_state =
       (Inr (False # results), st2)"
    by (elim exE conjE) (rule that)
  moreover have "executor_map (lambda_item demo_client ''out'' True) [(''c'', ''y''), (''d'', ''z'')] demo_state =
       (Inr [False, True], snd (executor_map (lambda_item demo_client ''out'' True) [(''c'', ''y''), (''d'', ''z'')] demo_state))"
    by (simp add: demo_run)
  moreover have "warns (snd (executor_map (lambda_item demo_client ''out'' True) [(''c'', ''y''), (''d'', ''z'')] demo_state)) =
      [ItemFailed ''y'' (OtherException ''UnidentifiedImageError'' ''cannot identify image file'')]"
    by (simp add: demo_run)
  moreover have "filter is_read_url_request (calls (snd (executor_map (lambda_item demo_client ''out'' True) [(''c'', ''y''), (''d'', ''z'')] demo_state))) =
      [GetSampleImageReadUrl ''ds1'' ''c'', GetSampleImageReadUrl ''ds1'' ''d'']"
    by (simp add: demo_run)
  ultimately show ?thesis by (intro exI [of _ "snd (executor_map (lambda_item demo_client ''out'' True) [(''c'', ''y''), (''d'', ''z'')] demo_state)"]) simp
qed

section \<open>The resolution of the tag\<close>

lemma select_at_in_range:
  "\<forall>i\<in>set indices. i < length xs \<Longrightarrow> select_at xs indices = Inr (map (\<lambda>i. xs ! i) indices)"
  by (induction indices) simp_all

lemma select_at_out_of_range:
  "\<exists>i\<in>set indices. length xs \<le> i \<Longrightarrow> select_at xs indices = Inl (IndexError ''list index out of range'')"
proof (induction indices)
  case Nil
  then show ?case by simp
next
  case (Cons a indices)
  show ?case
  proof (cases "a < length xs")
    case True
    with Cons.prems have "\<exists>i\<in>set indices. length xs \<le> i" by auto
    then have "select_at xs indices = Inl (IndexError ''list index out of range'')"
      by (rule Cons.IH)
    with True show ?thesis by simp
  next
    case False
    then show ?thesis by simp
  qed
qed

lemmas resolve_run =
  resolve_tag_def download_dataset_def and_then_def invoke_def pure_call_def returns_def raises_def

text \<open>
  Claim C2.  \<^verbatim>\<open>download_dataset\<close> checks its preconditions first.  When the image
  type of the dataset is not \<open>FULL\<close>, it raises the ValueError of the image type and
  the request of the dataset is the only call it has made.  When no tag of the
  dataset has the requested name, it raises the ValueError of the tag and has
  requested the dataset and the tags only: no sample id and no file name is listed
  and no download call is made.
\<close>

theorem preconditions_checked_first:
  assumes "get_dataset_by_id c (dataset_id c) (world st) = (Inr dataset, w1)"
  shows "(img_type dataset \<noteq> FULL \<longrightarrow>
            download_dataset c output_dir tag_name max_workers verbose st =
              (Inl (ValueError (''Dataset with id '' @ dataset_id c @ '' has no downloadable images!'')),
               st\<lparr>world := w1, calls := calls st @ [GetDatasetById (dataset_id c)]\<rparr>)) \<and>
         (img_type dataset = FULL \<longrightarrow>
            (\<forall>tags w2. get_all_tags c w1 = (Inr tags, w2) \<longrightarrow> (\<forall>t\<in>set tags. name t \<noteq> tag_name) \<longrightarrow>
               download_dataset c output_dir tag_name max_workers verbose st =
                 (Inl (ValueError (''Dataset with id '' @ dataset_id c @ '' has no tag '' @ tag_name @ ''!'')),
                  st\<lparr>world := w2, calls := calls st @ [GetDatasetById (dataset_id c), GetAllTags]\<rparr>)))"
proof (intro conjI impI allI)
  assume "img_type dataset \<noteq> FULL"
  with assms show "download_dataset c output_dir tag_name max_workers verbose st =
      (Inl (ValueError (''Dataset with id '' @ dataset_id c @ '' has no downloadable images!'')),
       st\<lparr>world := w1, calls := calls st @ [GetDatasetById (dataset_id c)]\<rparr>)"
    by (simp add: resolve_run)
next
  fix tags w2
  assume full: "img_type dataset = FULL"
    and tags: "get_all_tags c w1 = (Inr tags, w2)"
    and none: "\<forall>t\<in>set tags. name t \<noteq> tag_name"
  from none have "find (\<lambda>tag. name tag = tag_name) tags = None"
    by (simp add: find_None_iff)
  with assms full tags show "download_dataset c output_dir tag_name max_workers verbose st =
      (Inl (ValueError (''Dataset with id '' @ dataset_id c @ '' has no tag '' @ tag_name @ ''!'')),
       st\<lparr>world := w2, calls := calls st @ [GetDatasetById (dataset_id c), GetAllTags]\<rparr>)"
    by (simp add: resolve_run)
qed

text \<open>
  Claim C3.  For the indices decoded from the bit mask of the matched tag and the
  lists of sample ids and file names of the server, all indices being positions of
  both lists, the resolution of the tag returns the elements at the indices of each
  list, in the order of the indices; the two selections and the list of indices
  have the same length.  The sample ids \<open>a b c d\<close>, the file names \<open>w x y z\<close> and
  the indices \<open>1, 3\<close> give \<open>b d\<close> and \<open>x z\<close>.
\<close>

theorem tag_resolution_selects_at_indices:
  assumes "get_dataset_by_id c (dataset_id c) (world st) = (Inr dataset, w1)"
    and "img_type dataset = FULL"
    and "get_all_tags c w1 = (Inr tags, w2)"
    and "find (\<lambda>tag. name tag = tag_name) tags = Some tag"
    and "get_sample_mappings c (dataset_id c) w2 = (Inr sample_ids, w3)"
    and "to_indices c (bit_mask_data tag) = Inr indices"
    and "get_filenames c w3 = (Inr filenames, w4)"
    and "\<forall>i\<in>set indices. i < length sample_ids \<and> i < length filenames"
  shows "\<exists>ids names st1.
           resolve_tag c tag_name st = (Inr (ids, names), st1) \<and>
           ids = map (\<lambda>i. sample_ids ! i) indices \<and>
           names = map (\<lambda>i. filenames ! i) indices \<and>
           length ids = length indices \<and> length names = length indices \<and>
           (\<forall>k < length indices. ids ! k = sample_ids ! (indices ! k) \<and>
                                   names ! k = filenames ! (indices ! k))"
proof -
  have a: "select_at sample_ids indices = Inr (map (\<lambda>i. sample_ids ! i) indices)"
    using assms(8) by (intro select_at_in_range) simp
  have b: "select_at filenames indices = Inr (map (\<lambda>i. filenames ! i) indices)"
    using assms(8) by (intro select_at_in_range) simp
  have "fst (resolve_tag c tag_name st) =
      Inr (map (\<lambda>i. sample_ids ! i) indices, map (\<lambda>i. filenames ! i) indices)"
    using assms(1-7) a b by (simp add: resolve_run)
  then have eq: "resolve_tag c tag_name st =
      (Inr (map (\<lambda>i. sample_ids ! i) indices, map (\<lambda>i. filenames ! i) indices),
       snd (resolve_tag c tag_name st))"
    by (metis prod.collapse)
  show ?thesis
  proof (intro exI conjI)
    show "resolve_tag c tag_name st =
      (Inr (map (\<lambda>i. sample_ids ! i) indices, map (\<lambda>i. filenames ! i) indices),
       snd (resolve_tag c tag_name st))"
      by (rule eq)
  qed simp_all
qed

text \<open>
  Claim C9.  When an index decoded from the bit mask of the matched tag is not a
  position of the list of sample ids, or is not a position of the list of file
  names, \<^verbatim>\<open>download_dataset\<close> raises IndexError in the selection: the trace ends
  with the listing, no pool is created and no download call is made.
\<close>

theorem out_of_range_index_raises:
  assumes "get_dataset_by_id c (dataset_id c) (world st) = (Inr dataset, w1)"
    and "img_type dataset = FULL"
    and "get_all_tags c w1 = (Inr tags, w2)"
    and "find (\<lambda>tag. name tag = tag_name) tags = Some tag"
    and "get_sample_mappings c (dataset_id c) w2 = (Inr sample_ids, w3)"
    and "to_indices c (bit_mask_data tag) = Inr indices"
  shows "((\<exists>i\<in>set indices. length sample_ids \<le> i) \<longrightarrow>
            download_dataset c output_dir tag_name max_workers verbose st =
              (Inl (IndexError ''list index out of range''),
               st\<lparr>world := w3,
                  calls := calls st @ [GetDatasetById (dataset_id c), GetAllTags,
                                       GetSampleMappings (dataset_id c)]\<rparr>)) \<and>
         ((\<forall>i\<in>set indices. i < length sample_ids) \<longrightarrow>
            (\<forall>filenames w4. get_filenames c w3 = (Inr filenames, w4) \<longrightarrow>
               (\<exists>i\<in>set indices. length filenames \<le> i) \<longrightarrow>
               download_dataset c output_dir tag_name max_workers verbose st =
                 (Inl (IndexError ''list index out of range''),
                  st\<lparr>world := w4,
                     calls := calls st @ [GetDatasetById (dataset_id c), GetAllTags,
                                          GetSampleMappings (dataset_id c), GetFilenames]\<rparr>)))"
proof (intro conjI impI allI)
  assume "\<exists>i\<in>set indices. length sample_ids \<le> i"
  then have "select_at sample_ids indices = Inl (IndexError ''list index out of range'')"
    by (rule select_at_out_of_range)
  with assms show "download_dataset c output_dir tag_name max_workers verbose st =
      (Inl (IndexError ''list index out of range''),
       st\<lparr>world := w3,
          calls := calls st @ [GetDatasetById (dataset_id c), GetAllTags,
                               GetSampleMappings (dataset_id c)]\<rparr>)"
    by (simp add: resolve_run)
next
  fix filenames w4
  assume inr: "\<forall>i\<in>set indices. i < length sample_ids"
    and fn: "get_filenames c w3 = (Inr filenames, w4)"
    and out: "\<exists>i\<in>set indices. length filenames \<le> i"
  from inr have a: "select_at sample_ids indices = Inr (map (\<lambda>i. sample_ids ! i) indices)"
    by (rule select_at_in_range)
  from out have b: "select_at filenames indices = Inl (IndexError ''list index out of range'')"
    by (rule select_at_out_of_range)
  from assms fn a b show "download_dataset c output_dir tag_name max_workers verbose st =
      (Inl (IndexError ''list index out of range''),
       st\<lparr>world := w4,
          calls := calls st @ [GetDatasetById (dataset_id c), GetAllTags,
                               GetSampleMappings (dataset_id c), GetFilenames]\<rparr>)"
    by (simp add: resolve_run)
qed

lemmas demo_api = demo_client_def demo_state_def demo_tags_def thumbnail_client_def
  few_ids_client_def few_names_client_def

theorem preconditions_checked_first_witness:
  "download_dataset thumbnail_client ''out'' ''initial-tag'' 8 True demo_state =
     (Inl (ValueError ''Dataset with id ds1 has no downloadable images!''),
      demo_state\<lparr>calls := [GetDatasetById ''ds1'']\<rparr>) \<and>
   download_dataset demo_client ''out'' ''missing'' 8 True demo_state =
     (Inl (ValueError ''Dataset with id ds1 has no tag missing!''),
      demo_state\<lparr>calls := [GetDatasetById ''ds1'', GetAllTags]\<rparr>)"
proof -
  have a: "get_dataset_by_id thumbnail_client (dataset_id thumbnail_client) (world demo_state) =
      (Inr \<lparr>img_type = THUMBNAIL\<rparr>, world demo_state)"
    by (simp add: demo_api)
  have b: "get_dataset_by_id demo_client (dataset_id demo_client) (world demo_state) =
      (Inr \<lparr>img_type = FULL\<rparr>, world demo_state)"
    by (simp add: demo_api)
  have c: "get_all_tags demo_client (world demo_state) = (Inr demo_tags, world demo_state)"
    by (simp add: demo_api)
  have d: "\<forall>t\<in>set demo_tags. name t \<noteq> ''missing''" by (simp add: demo_tags_def)
  have e: "img_type \<lparr>img_type = THUMBNAIL\<rparr> \<noteq> FULL" by simp
  have f: "img_type \<lparr>img_type = FULL\<rparr> = FULL" by simp
  from preconditions_checked_first [OF a, where output_dir = "''out''" and tag_name = "''initial-tag''"
      and max_workers = 8 and verbose = True] e
  have one: "download_dataset thumbnail_client ''out'' ''initial-tag'' 8 True demo_state =
     (Inl (ValueError (''Dataset with id '' @ dataset_id thumbnail_client @ '' has no downloadable images!'')),
      demo_state\<lparr>world := world demo_state,
                  calls := calls demo_state @ [GetDatasetById (dataset_id thumbnail_client)]\<rparr>)"
    by blast
  from preconditions_checked_first [OF b, where output_dir = "''out''" and tag_name = "''missing''"
      and max_workers = 8 and verbose = True] f c d
  have two: "download_dataset demo_client ''out'' ''missing'' 8 True demo_state =
     (Inl (ValueError (''Dataset with id '' @ dataset_id demo_client @ '' has no tag '' @ ''missing'' @ ''!'')),
      demo_state\<lparr>world := world demo_state,
                  calls := calls demo_state @ [GetDatasetById (dataset_id demo_client), GetAllTags]\<rparr>)"
    by blast
  from one two show ?thesis by (simp add: demo_api)
qed

theorem tag_resolution_selects_at_indices_witness:
  "\<exists>st1. resolve_tag demo_client ''odd'' demo_state = (Inr ([''b'', ''d''], [''x'', ''z'']), st1)"
proof -
  have a: "get_dataset_by_id demo_client (dataset_id demo_client) (world demo_state) =
      (Inr \<lparr>img_type = FULL\<rparr>, world demo_state)"
    by (simp add: demo_api)
  have b: "img_type \<lparr>img_type = FULL\<rparr> = FULL" by simp
  have c: "get_all_tags demo_client (world demo_state) = (Inr demo_tags, world demo_state)"
    by (simp add: demo_api)
  have d: "find (\<lambda>tag. name tag = ''odd'') demo_tags = Some \<lparr>name = ''odd'', bit_mask_data = ''0xa''\<rparr>"
    by (simp add: demo_tags_def)
  have e: "get_sample_mappings demo_client (dataset_id demo_client) (world demo_state) =
      (Inr [''a'', ''b'', ''c'', ''d''], world demo_state)"
    by (simp add: demo_api)
  have f: "to_indices demo_client (bit_mask_data \<lparr>name = ''odd'', bit_mask_data = ''0xa''\<rparr>) = Inr [1, 3]"
    by (simp add: demo_api)
  have g: "get_filenames demo_client (world demo_state) = (Inr [''w'', ''x'', ''y'', ''z''], world demo_state)"
    by (simp add: demo_api)
  have h: "\<forall>i\<in>set [1, 3 :: nat]. i < length [''a'', ''b'', ''c'', ''d''] \<and> i < length [''w'', ''x'', ''y'', ''z'']"
    by simp
  from tag_resolution_selects_at_indices [OF a b c d e f g h]
  obtain ids names st1 where
    "resolve_tag demo_client ''odd'' demo_state = (Inr (ids, names), st1)"
    "ids = map (\<lambda>i. [''a'', ''b'', ''c'', ''d''] ! i) [1, 3]"
    "names = map (\<lambda>i. [''w'', ''x'', ''y'', ''z''] ! i) [1, 3]"
    by (elim exE conjE) (rule that)
  then show ?thesis by simp
qed

theorem out_of_range_index_raises_witness:
  "download_dataset few_ids_client ''out'' ''odd'' 8 True demo_state =
     (Inl (IndexError ''list index out of range''),
      demo_state\<lparr>calls := [GetDatasetById ''ds1'', GetAllTags, GetSampleMappings ''ds1'']\<rparr>) \<and>
   download_dataset few_names_client ''out'' ''odd'' 8 True demo_state =
     (Inl (IndexError ''list index out of range''),
      demo_state\<lparr>calls := [GetDatasetById ''ds1'', GetAllTags, GetSampleMappings ''ds1'', GetFilenames]\<rparr>)"
proof -
  let ?tag = "\<lparr>name = ''odd'', bit_mask_data = ''0xa''\<rparr>"
  have b: "img_type \<lparr>img_type = FULL\<rparr> = FULL" by simp
  have d: "find (\<lambda>tag. name tag = ''odd'') demo_tags = Some ?tag"
    by (simp add: demo_tags_def)
  have a1: "get_dataset_by_id few_ids_client (dataset_id few_ids_client) (world demo_state) =
      (Inr \<lparr>img_type = FULL\<rparr>, world demo_state)"
    by (simp add: demo_api)
  have c1: "get_all_tags few_ids_client (world demo_state) = (Inr demo_tags, world demo_state)"
    by (simp add: demo_api)
  have e1: "get_sample_mappings few_ids_client (dataset_id few_ids_client) (world demo_state) =
      (Inr [''a'', ''b'', ''c''], world demo_state)"
    by (simp add: demo_api)
  have f1: "to_indices few_ids_client (bit_mask_data ?tag) = Inr [1, 3]"
    by (simp add: demo_api)
  have o1: "\<exists>i\<in>set [1, 3 :: nat]. length [''a'', ''b'', ''c''] \<le> i" by simp
  from out_of_range_index_raises [OF a1 b c1 d e1 f1, where output_dir = "''out''"
      and max_workers = 8 and verbose = True] o1
  have one: "download_dataset few_ids_client ''out'' ''odd'' 8 True demo_state =
     (Inl (IndexError ''list index out of range''),
      demo_state\<lparr>world := world demo_state,
         calls := calls demo_state @ [GetDatasetById (dataset_id few_ids_client), GetAllTags,
                                      GetSampleMappings (dataset_id few_ids_client)]\<rparr>)"
    by blast
  have a2: "get_dataset_by_id few_names_client (dataset_id few_names_client) (world demo_state) =
      (Inr \<lparr>img_type = FULL\<rparr>, world demo_state)"
    by (simp add: demo_api)
  have c2: "get_all_tags few_names_client (world demo_state) = (Inr demo_tags, world demo_state)"
    by (simp add: demo_api)
  have e2: "get_sample_mappings few_names_client (dataset_id few_names_client) (world demo_state) =
      (Inr [''a'', ''b'', ''c'', ''d''], world demo_state)"
    by (simp add: demo_api)
  have f2: "to_indices few_names_client (bit_mask_data ?tag) = Inr [1, 3]"
    by (simp add: demo_api)
  have g2: "get_filenames few_names_client (world demo_state) = (Inr [''w'', ''x''], world demo_state)"
    by (simp add: demo_api)
  have i2: "\<forall>i\<in>set [1, 3 :: nat]. i < length [''a'', ''b'', ''c'', ''d'']" by simp
  have o2: "\<exists>i\<in>set [1, 3 :: nat]. length [''w'', ''x''] \<le> i" by simp
  from out_of_range_index_raises [OF a2 b c2 d e2 f2, where output_dir = "''out''"
      and max_workers = 8 and verbose = True] i2 g2 o2
  have two: "download_dataset few_names_client ''out'' ''odd'' 8 True demo_state =
     (Inl (IndexError ''list index out of range''),
      demo_state\<lparr>world := world demo_state,
         calls := calls demo_state @ [GetDatasetById (dataset_id few_names_client), GetAllTags,
                                      GetSampleMappings (dataset_id few_names_client), GetFilenames]\<rparr>)"
    by blast
  from one two show ?thesis by (simp add: demo_api)
qed

section \<open>The latest default embedding\<close>

lemma last_sort_key_max:
  assumes "xs \<noteq> []"
  shows "last (sort_key f xs) \<in> set xs \<and> (\<forall>x\<in>set xs. f x \<le> f (last (sort_key f xs)))"
proof -
  let ?ys = "sort_key f xs"
  have ne: "?ys \<noteq> []" using assms by (metis length_0_conv length_sort)
  have mem: "last ?ys \<in> set xs" using last_in_set [OF ne] by simp
  have srt: "sorted (map f ?ys)" by (rule sorted_sort_key)
  have "\<forall>x\<in>set xs. f x \<le> f (last ?ys)"
  proof
    fix x assume "x \<in> set xs"
    then have "f x \<in> set (map f ?ys)" by simp
    then obtain i where i: "i < length (map f ?ys)" "map f ?ys ! i = f x"
      by (metis in_set_conv_nth)
    have "map f ?ys ! i \<le> map f ?ys ! (length (map f ?ys) - 1)"
      using srt i(1) by (intro sorted_nth_mono) auto
    also have "\<dots> = last (map f ?ys)"
      using ne by (simp add: last_conv_nth)
    also have "\<dots> = f (last ?ys)" using ne by (simp add: last_map)
    finally show "f x \<le> f (last ?ys)" using i(2) by simp
  qed
  with mem show ?thesis by blast
qed

text \<open>
  Claim C6.  \<^verbatim>\<open>_get_latest_default_embedding_data\<close> returns a descriptor of the list
  whose name starts with \<open>default\<close> and whose creation time is the greatest among
  the descriptors with such a name; it returns None exactly when no name of the
  list starts with \<open>default\<close>.  Among \<open>default_a\<close> (100), \<open>default_b\<close> (200) and
  \<open>custom\<close> (300) it returns the one named \<open>default_b\<close>.
\<close>

theorem latest_default_embedding:
  "(case get_latest_default_embedding_data embeddings of
      None \<Rightarrow> \<forall>e\<in>set embeddings. \<not> prefix ''default'' (emb_name e)
    | Some d \<Rightarrow>
        d \<in> set embeddings \<and> prefix ''default'' (emb_name d) \<and>
        (\<forall>e\<in>set embeddings. prefix ''default'' (emb_name e) \<longrightarrow> created_at e \<le> created_at d)) \<and>
   (get_latest_default_embedding_data embeddings = None \<longleftrightarrow>
      (\<forall>e\<in>set embeddings. \<not> prefix ''default'' (emb_name e))) \<and>
   map_option emb_name (get_latest_default_embedding_data demo_embeddings) = Some ''default_b''"
proof -
  let ?ds = "filter (\<lambda>e. prefix ''default'' (emb_name e)) embeddings"
  have ex: "map_option emb_name (get_latest_default_embedding_data demo_embeddings) = Some ''default_b''"
    by (simp add: get_latest_default_embedding_data_def demo_embeddings_def)
  show ?thesis
  proof (cases "?ds = []")
    case True
    then have "get_latest_default_embedding_data embeddings = None"
      by (simp add: get_latest_default_embedding_data_def)
    moreover from True have "\<forall>e\<in>set embeddings. \<not> prefix ''default'' (emb_name e)"
      by (simp add: filter_empty_conv)
    ultimately show ?thesis using ex by simp
  next
    case False
    let ?d = "last (sort_key created_at ?ds)"
    from False have res: "get_latest_default_embedding_data embeddings = Some ?d"
      by (simp add: get_latest_default_embedding_data_def)
    from last_sort_key_max [OF False, of created_at]
    have mem: "?d \<in> set ?ds" and mx: "\<forall>x\<in>set ?ds. created_at x \<le> created_at ?d"
      by blast+
    from mem have p1: "?d \<in> set embeddings" "prefix ''default'' (emb_name ?d)" by simp_all
    from mx have p2: "\<forall>e\<in>set embeddings. prefix ''default'' (emb_name e) \<longrightarrow> created_at e \<le> created_at ?d"
      by simp
    from p1 have p3: "\<not> (\<forall>e\<in>set embeddings. \<not> prefix ''default'' (emb_name e))" by blast
    show ?thesis using p1 p2 p3 ex by (simp add: res)
  qed
qed

theorem latest_default_embedding_witness:
  "get_latest_default_embedding_data demo_embeddings =
     Some \<lparr>emb_id = ''e2'', emb_name = ''default_b'', created_at = 200, is_processed = True, is2d = False\<rparr> \<and>
   get_latest_default_embedding_data [demo_embeddings ! 2] = None"
proof -
  have a: "get_latest_default_embedding_data demo_embeddings =
     Some \<lparr>emb_id = ''e2'', emb_name = ''default_b'', created_at = 200, is_processed = True, is2d = False\<rparr>"
    by (simp add: get_latest_default_embedding_data_def demo_embeddings_def)
  have "\<forall>e\<in>set [demo_embeddings ! 2]. \<not> prefix ''default'' (emb_name e)"
    by (simp add: demo_embeddings_def)
  with latest_default_embedding [of "[demo_embeddings ! 2]"]
  have "get_latest_default_embedding_data [demo_embeddings ! 2] = None" by blast
  with a show ?thesis by simp
qed

section \<open>The download of the embeddings\<close>






section \<open>The loss\<close>

lemma neg_cosine_simililarity_run:
  "neg_cosine_simililarity rt x y s = (ncs_value rt x y, s @ [(x, y)])"
  by (simp add: neg_cosine_simililarity_def ncs_value_def split: sum.splits)

lemma unpack_pair_tuple: "unpack_pair (PyTuple [z, p]) = Inr (z, p)"
  by (simp add: unpack_pair_def)

lemma forward_value:
  "fst (forward rt out0 out1 s) =
     (case unpack_pair out0 of
        Inl e \<Rightarrow> Inl e
      | Inr (z0, p0) \<Rightarrow>
          (case unpack_pair out1 of
             Inl e \<Rightarrow> Inl e
           | Inr (z1, p1) \<Rightarrow>
               (case ncs_value rt p0 z1 of
                  Inl e \<Rightarrow> Inl e
                | Inr a \<Rightarrow>
                    (case ncs_value rt p1 z0 of
                       Inl e \<Rightarrow> Inl e
                     | Inr b \<Rightarrow> Inr (tensor_add rt (tensor_truediv rt a 2) (tensor_truediv rt b 2))))))"
  by (simp add: forward_def and_then_def pure_call_def returns_def neg_cosine_simililarity_run
      split: sum.splits prod.splits)

text \<open>
  Claim C8.  The loss is symmetrized.  For every runtime whose addition of scalars
  is commutative (the addition of floating-point numbers is, and so is that of the
  real numbers): whenever \<^verbatim>\<open>forward(out0, out1)\<close> returns a value,
  \<^verbatim>\<open>forward(out1, out0)\<close> returns the same value; and for \<open>out0 = (z0, p0)\<close> and
  \<open>out1 = (z1, p1)\<close> both are half the mean negative cosine similarity of
  \<open>(p0, z1)\<close> plus half that of \<open>(p1, z0)\<close>.
\<close>

theorem loss_is_symmetric:
  assumes "\<forall>a b. tensor_add rt a b = tensor_add rt b a"
  shows "(\<forall>v. fst (forward rt out0 out1 s) = Inr v \<longrightarrow> fst (forward rt out1 out0 s') = Inr v) \<and>
         (\<forall>a b. ncs_value rt p0 z1 = Inr a \<longrightarrow> ncs_value rt p1 z0 = Inr b \<longrightarrow>
            fst (forward rt (PyTuple [z0, p0]) (PyTuple [z1, p1]) s) =
              Inr (tensor_add rt (tensor_truediv rt a 2) (tensor_truediv rt b 2)) \<and>
            fst (forward rt (PyTuple [z1, p1]) (PyTuple [z0, p0]) s') =
              Inr (tensor_add rt (tensor_truediv rt a 2) (tensor_truediv rt b 2)))"
proof (intro conjI allI impI)
  fix v assume "fst (forward rt out0 out1 s) = Inr v"
  then show "fst (forward rt out1 out0 s') = Inr v"
    using assms by (auto simp: forward_value split: sum.splits prod.splits)
next
  fix a b assume "ncs_value rt p0 z1 = Inr a" "ncs_value rt p1 z0 = Inr b"
  then show "fst (forward rt (PyTuple [z0, p0]) (PyTuple [z1, p1]) s) =
      Inr (tensor_add rt (tensor_truediv rt a 2) (tensor_truediv rt b 2))"
    by (simp add: forward_value unpack_pair_tuple)
next
  fix a b assume "ncs_value rt p0 z1 = Inr a" "ncs_value rt p1 z0 = Inr b"
  then show "fst (forward rt (PyTuple [z1, p1]) (PyTuple [z0, p0]) s') =
      Inr (tensor_add rt (tensor_truediv rt a 2) (tensor_truediv rt b 2))"
    using assms by (simp add: forward_value unpack_pair_tuple)
qed

lemmas real_run = ncs_value_def neg_cosine_simililarity_def real_torch_def real_cosine_similarity_def
  real_mean_def detach_def cos_vec_def dot_def

lemma demo_sims:
  "ncs_value real_torch (Tensor [Scalar 0, Scalar 1]) (Tensor [Scalar 1, Scalar 0]) = Inr 0"
  "ncs_value real_torch (Tensor [Scalar 1, Scalar 0]) (Tensor [Scalar 1, Scalar 0]) = Inr (- 1)"
  by (simp_all add: real_run)

theorem loss_is_symmetric_witness:
  "fst (forward real_torch (PyTuple [Tensor [Scalar 1, Scalar 0], Tensor [Scalar 0, Scalar 1]])
          (PyTuple [Tensor [Scalar 1, Scalar 0], Tensor [Scalar 1, Scalar 0]]) []) = Inr (- 1 / 2) \<and>
   fst (forward real_torch (PyTuple [Tensor [Scalar 1, Scalar 0], Tensor [Scalar 1, Scalar 0]])
          (PyTuple [Tensor [Scalar 1, Scalar 0], Tensor [Scalar 0, Scalar 1]]) []) = Inr (- 1 / 2)"
proof -
  have comm: "\<forall>a b. tensor_add real_torch a b = tensor_add real_torch b a"
    by (simp add: real_torch_def)
  from loss_is_symmetric [OF comm, where ?p0.0 = "Tensor [Scalar 0, Scalar 1]"
      and ?z1.0 = "Tensor [Scalar 1, Scalar 0]" and ?p1.0 = "Tensor [Scalar 1, Scalar 0]"
      and ?z0.0 = "Tensor [Scalar 1, Scalar 0]" and s = "[]" and s' = "[]"] demo_sims
  show ?thesis by (simp add: real_torch_def)
qed

section \<open>The arguments of the loss\<close>

lemma unpack_pair_tensor: "unpack_pair (PyTensor (Tensor [z, p])) = Inr (z, p)"
  by (simp add: unpack_pair_def)

lemma unpack_pair_wrong_length:
  assumes "py_iter out = Inr items" and "length items \<noteq> 2"
  shows "\<exists>m. unpack_pair out = Inl (ValueError m)"
proof (cases items)
  case Nil
  with assms(1) show ?thesis by (simp add: unpack_pair_def)
next
  case (Cons a rest)
  show ?thesis
  proof (cases rest)
    case Nil
    with Cons assms(1) show ?thesis by (simp add: unpack_pair_def)
  next
    case (Cons b others)
    have "others \<noteq> []" using Cons \<open>items = a # rest\<close> assms(2) by auto
    then obtain c others' where "others = c # others'" by (cases others) auto
    with Cons \<open>items = a # rest\<close> assms(1) show ?thesis by (simp add: unpack_pair_def)
  qed
qed

lemma unpack_pair_Inr_iff:
  "(\<exists>z p. unpack_pair out = Inr (z, p)) \<longleftrightarrow> (\<exists>z p. py_iter out = Inr [z, p])"
  by (auto simp: unpack_pair_def split: sum.splits list.splits if_splits)

lemma py_iter_tensor_pair: "(\<exists>z p. py_iter (PyTensor t) = Inr [z, p]) \<longleftrightarrow> (\<exists>z p. t = Tensor [z, p])"
  by (cases t) auto

text \<open>
  Claim C10, as amended.  \<^verbatim>\<open>forward\<close> destructures each argument into two tensors:
  when an argument does not unpack into exactly two elements (its iteration raises,
  or yields another number of elements), \<^verbatim>\<open>forward\<close> raises and no similarity has
  been computed.  A plain tensor unpacks exactly when its first dimension has size
  2; \<^verbatim>\<open>forward\<close> then computes what it computes for the tuple of the two slices.
\<close>

theorem forward_requires_two_elements:
  "((\<exists>e. unpack_pair out0 = Inl e) \<or> (\<exists>e. unpack_pair out1 = Inl e) \<longrightarrow>
      (\<exists>e. forward rt out0 out1 s = (Inl e, s))) \<and>
   (\<forall>items. py_iter out = Inr items \<longrightarrow> length items \<noteq> 2 \<longrightarrow>
      (\<exists>m. unpack_pair out = Inl (ValueError m))) \<and>
   (\<forall>e. py_iter out = Inl e \<longrightarrow> unpack_pair out = Inl e) \<and>
   ((\<exists>z p. unpack_pair (PyTensor t) = Inr (z, p)) \<longleftrightarrow> (\<exists>z p. t = Tensor [z, p])) \<and>
   forward rt (PyTensor (Tensor [z, p])) out1 s = forward rt (PyTuple [z, p]) out1 s \<and>
   forward rt out0 (PyTensor (Tensor [z, p])) s = forward rt out0 (PyTuple [z, p]) s"
proof -
  have a: "(\<exists>e. unpack_pair out0 = Inl e) \<or> (\<exists>e. unpack_pair out1 = Inl e) \<longrightarrow>
      (\<exists>e. forward rt out0 out1 s = (Inl e, s))"
    by (auto simp: forward_def and_then_def pure_call_def split: sum.splits prod.splits)
  have b: "\<forall>items. py_iter out = Inr items \<longrightarrow> length items \<noteq> 2 \<longrightarrow>
      (\<exists>m. unpack_pair out = Inl (ValueError m))"
    using unpack_pair_wrong_length by blast
  have c: "\<forall>e. py_iter out = Inl e \<longrightarrow> unpack_pair out = Inl e"
    by (simp add: unpack_pair_def)
  have d: "(\<exists>z p. unpack_pair (PyTensor t) = Inr (z, p)) \<longleftrightarrow> (\<exists>z p. t = Tensor [z, p])"
    by (simp only: unpack_pair_Inr_iff py_iter_tensor_pair)
  have e: "forward rt (PyTensor (Tensor [z, p])) out1 s = forward rt (PyTuple [z, p]) out1 s"
    by (simp add: forward_def unpack_pair_def)
  have f: "forward rt out0 (PyTensor (Tensor [z, p])) s = forward rt out0 (PyTuple [z, p]) s"
    by (simp add: forward_def unpack_pair_def)
  show ?thesis
    by (intro conjI) (rule a, rule b, rule c, rule d, rule e, rule f)
qed

theorem forward_requires_two_elements_witness:
  "forward real_torch (PyTensor (Scalar 1)) (PyTuple [Tensor [Scalar 1, Scalar 0], Tensor [Scalar 1, Scalar 0]]) [] =
     (Inl (TypeError ''iteration over a 0-d tensor''), []) \<and>
   (\<exists>m. unpack_pair (PyTuple [Tensor [Scalar (1::real)]]) = Inl (ValueError m)) \<and>
   (\<exists>m. unpack_pair (PyTensor (Tensor [Scalar (1::real), Scalar 2, Scalar 3])) = Inl (ValueError m))"
proof -
  let ?pair = "PyTuple [Tensor [Scalar (1::real), Scalar 0], Tensor [Scalar 1, Scalar 0]]"
  have u: "unpack_pair (PyTensor (Scalar (1::real))) = Inl (TypeError ''iteration over a 0-d tensor'')"
    by (simp add: unpack_pair_def)
  then have hyp: "(\<exists>e. unpack_pair (PyTensor (Scalar (1::real))) = Inl e) \<or> (\<exists>e. unpack_pair ?pair = Inl e)"
    by simp
  have "(\<exists>e. unpack_pair (PyTensor (Scalar (1::real))) = Inl e) \<or> (\<exists>e. unpack_pair ?pair = Inl e) \<longrightarrow>
      (\<exists>e. forward real_torch (PyTensor (Scalar 1)) ?pair [] = (Inl e, []))"
    by (rule forward_requires_two_elements [where ?out0.0 = "PyTensor (Scalar (1::real))"
          and rt = real_torch and ?out1.0 = ?pair and s = "[]", THEN conjunct1])
  with hyp obtain e where e: "forward real_torch (PyTensor (Scalar 1)) ?pair [] = (Inl e, [])"
    by blast
  have "fst (forward real_torch (PyTensor (Scalar 1)) ?pair []) =
      Inl (TypeError ''iteration over a 0-d tensor'')"
    by (simp add: forward_value u)
  with e have one: "forward real_torch (PyTensor (Scalar 1)) ?pair [] =
      (Inl (TypeError ''iteration over a 0-d tensor''), [])"
    by simp
  have "\<forall>items. py_iter (PyTuple [Tensor [Scalar (1::real)]]) = Inr items \<longrightarrow> length items \<noteq> 2 \<longrightarrow>
      (\<exists>m. unpack_pair (PyTuple [Tensor [Scalar (1::real)]]) = Inl (ValueError m))"
    by (rule forward_requires_two_elements [where out = "PyTuple [Tensor [Scalar (1::real)]]",
          THEN conjunct2, THEN conjunct1])
  then have two: "\<exists>m. unpack_pair (PyTuple [Tensor [Scalar (1::real)]]) = Inl (ValueError m)"
    by simp
  have "\<forall>items. py_iter (PyTensor (Tensor [Scalar (1::real), Scalar 2, Scalar 3])) = Inr items \<longrightarrow>
      length items \<noteq> 2 \<longrightarrow>
      (\<exists>m. unpack_pair (PyTensor (Tensor [Scalar (1::real), Scalar 2, Scalar 3])) = Inl (ValueError m))"
    by (rule forward_requires_two_elements
          [where out = "PyTensor (Tensor [Scalar (1::real), Scalar 2, Scalar 3])",
          THEN conjunct2, THEN conjunct1])
  then have three: "\<exists>m. unpack_pair (PyTensor (Tensor [Scalar (1::real), Scalar 2, Scalar 3])) = Inl (ValueError m)"
    by simp
  show ?thesis by (intro conjI) (rule one, rule two, rule three)
qed

text \<open>
  A plain tensor of shape \<open>2 \<times> 2\<close> for each argument: \<^verbatim>\<open>forward\<close> returns a loss.
\<close>

theorem plain_tensor_is_accepted:
  "fst (forward real_torch
          (PyTensor (Tensor [Tensor [Scalar 1, Scalar 0], Tensor [Scalar 0, Scalar 1]]))
          (PyTensor (Tensor [Tensor [Scalar 1, Scalar 0], Tensor [Scalar 1, Scalar 0]])) []) =
     Inr (- 1 / 2)"
proof -
  have "fst (forward real_torch
          (PyTensor (Tensor [Tensor [Scalar 1, Scalar 0], Tensor [Scalar 0, Scalar 1]]))
          (PyTensor (Tensor [Tensor [Scalar 1, Scalar 0], Tensor [Scalar 1, Scalar 0]])) []) =
     Inr (tensor_add real_torch (tensor_truediv real_torch 0 2) (tensor_truediv real_torch (- 1) 2))"
    by (simp add: forward_value unpack_pair_tensor demo_sims)
  then show ?thesis by (simp add: real_torch_def)
qed

end
